theory Spec2Isabelle
  imports Complex_Main
begin

section \<open>Python values shared by the modules\<close>

text \<open>
  The exceptions the modelled code can raise. \<open>RuntimeError\<close> carries its message, so
  that the lifecycle error of \<open>CaptureSession.frames\<close> can be told apart from an error
  of the camera SDK.
\<close>

datatype py_error =
    IndexError
  | KeyError
  | ValueError
  | RuntimeError string
  | FileNotFoundError
  | StopIteration
  | cv2_error

text \<open>
  A NumPy array of one or two dimensions. \<open>Array1D xs\<close> has shape \<open>(length xs,)\<close>,
  \<open>Array2D rows\<close> has shape \<open>(length rows, m)\<close> for rows of length \<open>m\<close>.
  Floating-point entries are modelled as reals: rounding is not modelled.
\<close>

datatype 'a ndarray = Array1D "'a list" | Array2D "'a list list"

text \<open>
  \<open>np.array(rows)\<close> on a list of equally long rows. The empty list gives the
  one-dimensional array of shape \<open>(0,)\<close>: NumPy has no row to read a second dimension from.
\<close>

definition np_array :: "'a list list \<Rightarrow> 'a ndarray" where
  "np_array rows = (if rows = [] then Array1D [] else Array2D rows)"

text \<open>
  \<open>a[:, j]\<close>: a one-dimensional array raises \<open>IndexError\<close> (too many indices), a
  two-dimensional one gives column \<open>j\<close>.
\<close>

fun column :: "'a ndarray \<Rightarrow> nat \<Rightarrow> py_error + 'a list" where
  "column (Array1D xs) j = Inl IndexError"
| "column (Array2D rows) j =
     (if list_all (\<lambda>r. j < length r) rows then Inr (map (\<lambda>r. r ! j) rows)
      else Inl IndexError)"

text \<open>\<open>a * k\<close> for a float array and a Python int.\<close>

definition times_int :: "real list \<Rightarrow> int \<Rightarrow> real list" where
  "times_int xs k = map (\<lambda>v. v * of_int k) xs"

text \<open>\<open>np.column_stack((a, b))\<close> of two one-dimensional arrays: the rows \<open>(a[i], b[i])\<close>.\<close>

definition column_stack :: "'a list \<Rightarrow> 'a list \<Rightarrow> py_error + ('a \<times> 'a) list" where
  "column_stack a b = (if length a = length b then Inr (zip a b) else Inl ValueError)"

text \<open>\<open>.astype(int)\<close> truncates towards zero.\<close>

definition trunc :: "real \<Rightarrow> int" where
  "trunc v = (if 0 \<le> v then \<lfloor>v\<rfloor> else \<lceil>v\<rceil>)"

definition astype_int :: "(real \<times> real) list \<Rightarrow> (int \<times> int) list" where
  "astype_int rows = map (\<lambda>(a, b). (trunc a, trunc b)) rows"

section \<open>Images and the array store\<close>

text \<open>
  A colour is a BGR triple. An image is its shape, its pixel data and the strokes drawn on
  it since: OpenCV's rasterisation is not modelled, a drawing call is recorded on the
  image it draws on.
\<close>

type_synonym colour = "nat \<times> nat \<times> nat"

datatype draw_op =
    Line "int \<times> int" "int \<times> int" colour int
  | Circle "int \<times> int" int colour int

record image =
  img_shape :: "nat list"
  img_pixels :: "nat list"
  img_strokes :: "draw_op list"

text \<open>
  Arrays are Python objects with identity: the store is the list of live arrays and a
  reference is a position in it. \<open>frame.copy()\<close> allocates a new array, the drawing
  functions of OpenCV change the array they are given in place.
\<close>

type_synonym ref = nat
type_synonym heap = "image list"

definition ndarray_copy :: "ref \<Rightarrow> heap \<Rightarrow> ref \<times> heap" where
  "ndarray_copy a h = (length h, h @ [h ! a])"

definition draw :: "ref \<Rightarrow> draw_op \<Rightarrow> heap \<Rightarrow> heap" where
  "draw a d h = h[a := (h ! a)\<lparr>img_strokes := img_strokes (h ! a) @ [d]\<rparr>]"

definition cv2_line :: "ref \<Rightarrow> int \<times> int \<Rightarrow> int \<times> int \<Rightarrow> colour \<Rightarrow> int \<Rightarrow> heap \<Rightarrow> heap" where
  "cv2_line img pt1 pt2 color thickness h = draw img (Line pt1 pt2 color thickness) h"

definition cv2_circle :: "ref \<Rightarrow> int \<times> int \<Rightarrow> int \<Rightarrow> colour \<Rightarrow> int \<Rightarrow> heap \<Rightarrow> heap" where
  "cv2_circle img center radius color thickness h = draw img (Circle center radius color thickness) h"

section \<open>body_tracking.py\<close>

datatype PoseLandmark =
  PoseLandmark (lm_x: real) (lm_y: real) (lm_z: real) (lm_visibility: real)

record PoseResult =
  landmarks :: "PoseLandmark list"
  image_height :: int
  image_width :: int

definition as_ndarray :: "PoseResult \<Rightarrow> real ndarray" where
  "as_ndarray self =
     np_array (map (\<lambda>lm. [lm_x lm, lm_y lm, lm_z lm, lm_visibility lm]) (landmarks self))"

text \<open>
  \<open>cv2.cvtColor(frame, cv2.COLOR_BGR2RGB)\<close>: the frame must have three dimensions and
  three or four channels; the result has three channels, red and blue exchanged.
\<close>

fun chunks :: "nat \<Rightarrow> nat \<Rightarrow> 'a list \<Rightarrow> 'a list list" where
  "chunks 0 c xs = []"
| "chunks (Suc n) c xs = take c xs # chunks n c (drop c xs)"

definition swap_rb :: "colour \<Rightarrow> colour" where
  "swap_rb col = (case col of (b, g, r) \<Rightarrow> (r, g, b))"

fun swap_stroke :: "draw_op \<Rightarrow> draw_op" where
  "swap_stroke (Line p q col t) = Line p q (swap_rb col) t"
| "swap_stroke (Circle p r col t) = Circle p r (swap_rb col) t"

definition cvtColor_BGR2RGB :: "image \<Rightarrow> py_error + image" where
  "cvtColor_BGR2RGB src =
     (case img_shape src of
        [h, w, c] \<Rightarrow>
          if c = 3 \<or> c = 4 then
            Inr \<lparr>img_shape = [h, w, 3],
                 img_pixels = concat (map (\<lambda>px. [px ! 2, px ! 1, px ! 0])
                                        (chunks (h * w) c (img_pixels src))),
                 img_strokes = map swap_stroke (img_strokes src)\<rparr>
          else Inl cv2_error
      | _ \<Rightarrow> Inl cv2_error)"

text \<open>
  The MediaPipe model is opaque: \<open>mp_pose\<close> is what \<open>self._mp_pose.process\<close> finds in
  an RGB image, \<open>None\<close> for no body and otherwise the landmarks as
  \<open>(x, y, z, visibility)\<close>.
\<close>

record PoseEstimator =
  mp_pose :: "image \<Rightarrow> (real \<times> real \<times> real \<times> real) list option"

definition estimate :: "PoseEstimator \<Rightarrow> image \<Rightarrow> py_error + PoseResult option" where
  "estimate self frame =
     (case cvtColor_BGR2RGB frame of
        Inl e \<Rightarrow> Inl e
      | Inr rgb_frame \<Rightarrow>
          (case mp_pose self rgb_frame of
             None \<Rightarrow> Inr None
           | Some pose_landmarks \<Rightarrow>
               (case img_shape frame of
                  [height, width, c] \<Rightarrow>
                    Inr (Some \<lparr>landmarks =
                                 map (\<lambda>(x, y, z, v). PoseLandmark x y z v) pose_landmarks,
                               image_height = int height,
                               image_width = int width\<rparr>)
                | _ \<Rightarrow> Inl ValueError)))"

section \<open>overlay.py\<close>

record OverlayColors =
  skeleton :: colour
  joints :: colour

definition OverlayColors_default :: OverlayColors where
  "OverlayColors_default = \<lparr>skeleton = (0, 255, 0), joints = (0, 128, 255)\<rparr>"

definition default_pairs :: "(nat \<times> nat) list" where
  "default_pairs =
     [(11, 12), (12, 14), (14, 16), (11, 13), (13, 15), (11, 23),
      (12, 24), (23, 25), (25, 27), (24, 26), (26, 28)]"

record OverlayRenderer =
  colors :: OverlayColors
  pairs :: "(nat \<times> nat) list"

definition OverlayRenderer_init :: "OverlayColors option \<Rightarrow> OverlayRenderer" where
  "OverlayRenderer_init cols =
     \<lparr>colors = (case cols of None \<Rightarrow> OverlayColors_default | Some c \<Rightarrow> c),
      pairs = default_pairs\<rparr>"

text \<open>Lines 29 to 31 of \<open>render\<close>: the pixel coordinates of the landmarks.\<close>

definition landmark_coords :: "PoseResult \<Rightarrow> py_error + (int \<times> int) list" where
  "landmark_coords pose =
     (let height = image_height pose; width = image_width pose; points = as_ndarray pose in
      case column points 0 of
        Inl e \<Rightarrow> Inl e
      | Inr xs \<Rightarrow>
          (case column points 1 of
             Inl e \<Rightarrow> Inl e
           | Inr ys \<Rightarrow>
               (case column_stack (times_int xs width) (times_int ys height) of
                  Inl e \<Rightarrow> Inl e
                | Inr stacked \<Rightarrow> Inr (astype_int stacked))))"

text \<open>The two loops of \<open>render\<close>, over the edges and over the joints.\<close>

definition draw_edges ::
  "OverlayRenderer \<Rightarrow> ref \<Rightarrow> (int \<times> int) list \<Rightarrow> heap \<Rightarrow> heap" where
  "draw_edges self annotated coords h =
     fold (\<lambda>(start, end) hh.
             if start \<ge> length coords \<or> end \<ge> length coords then hh
             else cv2_line annotated (coords ! start) (coords ! end)
                    (skeleton (colors self)) 2 hh)
          (pairs self) h"

definition draw_joints ::
  "OverlayRenderer \<Rightarrow> ref \<Rightarrow> (int \<times> int) list \<Rightarrow> heap \<Rightarrow> heap" where
  "draw_joints self annotated coords h =
     fold (\<lambda>(x, y) hh. cv2_circle annotated (x, y) 4 (joints (colors self)) (- 1) hh)
          coords h"

text \<open>
  \<open>render\<close> returns the reference of the annotated array and the new store, or the
  exception raised. The only raise is in the computation of the coordinates, before the
  frame is copied, so an error leaves the store as it was.
\<close>

definition render ::
  "OverlayRenderer \<Rightarrow> ref \<Rightarrow> PoseResult \<Rightarrow> heap \<Rightarrow> py_error + (ref \<times> heap)" where
  "render self frame pose h =
     (case landmark_coords pose of
        Inl e \<Rightarrow> Inl e
      | Inr coords \<Rightarrow>
          (let (annotated, h1) = ndarray_copy frame h;
               h2 = draw_edges self annotated coords h1;
               h3 = draw_joints self annotated coords h2
           in Inr (annotated, h3)))"

text \<open>
  \<open>render_sequence\<close> is a generator; the model runs it to its end and returns the
  references it yields in order, the exception that ended it (if one did) and the store.
\<close>

fun render_sequence ::
  "OverlayRenderer \<Rightarrow> ref list \<Rightarrow> PoseResult option list \<Rightarrow> heap
    \<Rightarrow> ref list \<times> py_error option \<times> heap" where
  "render_sequence self (frame # frames) (pose # poses) h =
     (case pose of
        None \<Rightarrow>
          (case render_sequence self frames poses h of
             (out, err, h') \<Rightarrow> (frame # out, err, h'))
      | Some p \<Rightarrow>
          (case render self frame p h of
             Inl e \<Rightarrow> ([], Some e, h)
           | Inr (annotated, h1) \<Rightarrow>
               (case render_sequence self frames poses h1 of
                  (out, err, h') \<Rightarrow> (annotated # out, err, h'))))"
| "render_sequence self frames poses h = ([], None, h)"

section \<open>calibration.py\<close>

record CalibrationData =
  camera_matrix :: "real ndarray"
  distortion_coeffs :: "real ndarray"
  extrinsics :: "real ndarray option"

text \<open>
  A member of an \<open>.npz\<close> archive is what \<open>np.savez\<close> wrote for one keyword:
  \<open>np.asanyarray(value)\<close>, which is the numeric array itself, or for \<open>None\<close> the
  zero-dimensional array of dtype \<open>object\<close> holding \<open>None\<close>, stored as a pickle.
\<close>

datatype npy = NumericArray "real ndarray" | ObjectArrayNone

definition asanyarray :: "real ndarray option \<Rightarrow> npy" where
  "asanyarray v = (case v of None \<Rightarrow> ObjectArrayNone | Some a \<Rightarrow> NumericArray a)"

text \<open>
  An archive lists its members in the order written. The file system maps a path to the
  archive stored there; writing is taken to succeed.
\<close>

type_synonym npz = "(string \<times> npy) list"
type_synonym filesystem = "string \<rightharpoonup> npz"

definition endswith :: "string \<Rightarrow> string \<Rightarrow> bool" where
  "endswith s suffix =
     (length suffix \<le> length s \<and> drop (length s - length suffix) s = suffix)"

text \<open>\<open>np.savez\<close> appends \<open>.npz\<close> to a file name that does not end with it.\<close>

definition savez_filename :: "string \<Rightarrow> string" where
  "savez_filename file = (if endswith file ''.npz'' then file else file @ ''.npz'')"

definition np_savez :: "string \<Rightarrow> (string \<times> real ndarray option) list \<Rightarrow> filesystem \<Rightarrow> filesystem" where
  "np_savez file kwds fs =
     fs(savez_filename file \<mapsto> map (\<lambda>(key, val). (key, asanyarray val)) kwds)"

definition save_calibration :: "CalibrationData \<Rightarrow> string \<Rightarrow> filesystem \<Rightarrow> filesystem" where
  "save_calibration data path fs =
     np_savez path
       [(''camera_matrix'', Some (camera_matrix data)),
        (''distortion_coeffs'', Some (distortion_coeffs data)),
        (''extrinsics'', extrinsics data)]
       fs"

text \<open>
  \<open>np.load(path)\<close> opens the file at exactly \<open>path\<close>, with \<open>allow_pickle=False\<close>.
  \<open>archive[key]\<close> reads the member: \<open>KeyError\<close> when there is none, \<open>ValueError\<close>
  when it is an object array, which cannot be read without pickle.
\<close>

definition np_load :: "string \<Rightarrow> filesystem \<Rightarrow> py_error + npz" where
  "np_load file fs = (case fs file of None \<Rightarrow> Inl FileNotFoundError | Some archive \<Rightarrow> Inr archive)"

definition npz_getitem :: "npz \<Rightarrow> string \<Rightarrow> py_error + real ndarray" where
  "npz_getitem archive key =
     (case map_of archive key of
        None \<Rightarrow> Inl KeyError
      | Some (NumericArray a) \<Rightarrow> Inr a
      | Some ObjectArrayNone \<Rightarrow> Inl ValueError)"

text \<open>\<open>archive.get(key)\<close> is \<open>Mapping.get\<close>: it catches \<open>KeyError\<close> only.\<close>

definition npz_get :: "npz \<Rightarrow> string \<Rightarrow> py_error + real ndarray option" where
  "npz_get archive key =
     (case npz_getitem archive key of
        Inl e \<Rightarrow> (if e = KeyError then Inr None else Inl e)
      | Inr a \<Rightarrow> Inr (Some a))"

definition load_calibration :: "string \<Rightarrow> filesystem \<Rightarrow> py_error + CalibrationData" where
  "load_calibration path fs =
     (case np_load path fs of
        Inl e \<Rightarrow> Inl e
      | Inr archive \<Rightarrow>
          (case npz_getitem archive ''camera_matrix'' of
             Inl e \<Rightarrow> Inl e
           | Inr cm \<Rightarrow>
               (case npz_getitem archive ''distortion_coeffs'' of
                  Inl e \<Rightarrow> Inl e
                | Inr dc \<Rightarrow>
                    (case npz_get archive ''extrinsics'' of
                       Inl e \<Rightarrow> Inl e
                     | Inr ex \<Rightarrow>
                         Inr \<lparr>camera_matrix = cm, distortion_coeffs = dc,
                              extrinsics = ex\<rparr>))))"

section \<open>capture.py\<close>

record StreamProfile =
  sp_width :: int
  sp_height :: int
  sp_fps :: int

definition StreamProfile_default :: StreamProfile where
  "StreamProfile_default = \<lparr>sp_width = 848, sp_height = 480, sp_fps = 30\<rparr>"

record CaptureConfig =
  color_stream :: StreamProfile
  depth_stream :: StreamProfile
  align_to_color :: bool
  playback_file :: "string option"

text \<open>
  The camera SDK. A frameset holds a colour and a depth frame, either of which may be
  missing (the SDK then returns a frame that is false). The device is what it will
  deliver at each wait: a frameset, or nothing within the timeout. The pipeline records
  the calls made on it.
\<close>

record frameset =
  color_frame :: "image option"
  depth_frame :: "image option"

datatype delivery = Frames frameset | Timeout

datatype rs_format = bgr8 | z16

record rs_config =
  color_enabled :: "int \<times> int \<times> rs_format \<times> int"
  depth_enabled :: "int \<times> int \<times> rs_format \<times> int"
  device_from_file :: "string option"

datatype rs_call = PipelineStart rs_config | PipelineStop | WaitForFrames

record rs_pipeline =
  running :: bool
  connectable :: bool
  feed :: "nat \<Rightarrow> delivery"
  cursor :: nat
  sdk_calls :: "rs_call list"

definition pipeline_start :: "rs_config \<Rightarrow> rs_pipeline \<Rightarrow> (py_error + unit) \<times> rs_pipeline" where
  "pipeline_start cfg p =
     (let p' = p\<lparr>sdk_calls := sdk_calls p @ [PipelineStart cfg]\<rparr> in
      if running p then (Inl (RuntimeError ''start() cannot be called before stop()''), p')
      else if connectable p then (Inr (), p'\<lparr>running := True\<rparr>)
      else (Inl (RuntimeError ''No device connected''), p'))"

definition pipeline_stop :: "rs_pipeline \<Rightarrow> (py_error + unit) \<times> rs_pipeline" where
  "pipeline_stop p =
     (let p' = p\<lparr>sdk_calls := sdk_calls p @ [PipelineStop]\<rparr> in
      if running p then (Inr (), p'\<lparr>running := False\<rparr>)
      else (Inl (RuntimeError ''stop() cannot be called before start()''), p'))"

definition wait_for_frames :: "rs_pipeline \<Rightarrow> (py_error + frameset) \<times> rs_pipeline" where
  "wait_for_frames p =
     (let p' = p\<lparr>sdk_calls := sdk_calls p @ [WaitForFrames]\<rparr> in
      if running p then
        (case feed p (cursor p) of
           Timeout \<Rightarrow> (Inl (RuntimeError ''Frame did not arrive in time''),
                       p'\<lparr>cursor := Suc (cursor p)\<rparr>)
         | Frames fs \<Rightarrow> (Inr fs, p'\<lparr>cursor := Suc (cursor p)\<rparr>))
      else (Inl (RuntimeError ''wait_for_frames cannot be called before start()''), p'))"

text \<open>
  The session. \<open>align\<close> is \<open>self._align\<close>: \<open>None\<close>, or the processor that reprojects
  the depth frame of a frameset onto the colour stream.
\<close>

record CaptureSession =
  config :: CaptureConfig
  pipeline :: rs_pipeline
  align :: "(frameset \<Rightarrow> frameset) option"
  started :: bool

definition CaptureSession_init ::
  "CaptureConfig \<Rightarrow> rs_pipeline \<Rightarrow> (frameset \<Rightarrow> frameset) \<Rightarrow> CaptureSession" where
  "CaptureSession_init cfg p rs_align =
     \<lparr>config = cfg, pipeline = p,
      align = (if align_to_color cfg then Some rs_align else None),
      started = False\<rparr>"

definition start_config :: "CaptureConfig \<Rightarrow> rs_config" where
  "start_config c =
     \<lparr>color_enabled = (sp_width (color_stream c), sp_height (color_stream c), bgr8,
                        sp_fps (color_stream c)),
      depth_enabled = (sp_width (depth_stream c), sp_height (depth_stream c), z16,
                        sp_fps (depth_stream c)),
      device_from_file = playback_file c\<rparr>"

definition start :: "CaptureSession \<Rightarrow> (py_error + unit) \<times> CaptureSession" where
  "start self =
     (if started self then (Inr (), self)
      else
        (case pipeline_start (start_config (config self)) (pipeline self) of
           (Inl e, p') \<Rightarrow> (Inl e, self\<lparr>pipeline := p'\<rparr>)
         | (Inr u, p') \<Rightarrow> (Inr (), self\<lparr>pipeline := p', started := True\<rparr>)))"

definition stop :: "CaptureSession \<Rightarrow> (py_error + unit) \<times> CaptureSession" where
  "stop self =
     (if started self then
        (case pipeline_stop (pipeline self) of
           (Inl e, p') \<Rightarrow> (Inl e, self\<lparr>pipeline := p'\<rparr>)
         | (Inr u, p') \<Rightarrow> (Inr (), self\<lparr>pipeline := p', started := False\<rparr>))
      else (Inr (), self))"

text \<open>
  \<open>frames\<close> is a generator function: the call runs none of its body and returns a
  generator object, which reads the session each time an item is requested from it.
  A request either yields a pair or raises; the generator is then suspended in the loop,
  or finished.
\<close>

datatype generator = GenCreated | GenSuspended | GenFinished

datatype step = Yield "image \<times> image" | Raise py_error

definition frames :: "CaptureSession \<Rightarrow> generator" where
  "frames self = GenCreated"

definition aligned :: "CaptureSession \<Rightarrow> frameset \<Rightarrow> frameset" where
  "aligned self fs = (case align self of None \<Rightarrow> fs | Some process \<Rightarrow> process fs)"

text \<open>
  The \<open>while True\<close> loop, from the top of its body to the next \<open>yield\<close> or raise. It
  runs for ever on a device that goes on delivering framesets with a component missing:
  the result is then \<open>None\<close>.
\<close>

partial_function (option) frames_loop :: "CaptureSession \<Rightarrow> (step \<times> CaptureSession) option" where
  "frames_loop self =
     (case wait_for_frames (pipeline self) of
        (Inl e, p') \<Rightarrow> Some (Raise e, self\<lparr>pipeline := p'\<rparr>)
      | (Inr fs, p') \<Rightarrow>
          (case color_frame (aligned self fs) of
             None \<Rightarrow> frames_loop (self\<lparr>pipeline := p'\<rparr>)
           | Some color \<Rightarrow>
               (case depth_frame (aligned self fs) of
                  None \<Rightarrow> frames_loop (self\<lparr>pipeline := p'\<rparr>)
                | Some depth \<Rightarrow> Some (Yield (color, depth), self\<lparr>pipeline := p'\<rparr>))))"

definition lifecycle_error :: py_error where
  "lifecycle_error = RuntimeError ''CaptureSession must be started before requesting frames''"

definition resume :: "(step \<times> CaptureSession) option \<Rightarrow> (step \<times> generator \<times> CaptureSession) option" where
  "resume r =
     (case r of
        None \<Rightarrow> None
      | Some (Yield pair, s) \<Rightarrow> Some (Yield pair, GenSuspended, s)
      | Some (Raise e, s) \<Rightarrow> Some (Raise e, GenFinished, s))"

text \<open>\<open>next(g)\<close> on the generator \<open>g\<close> of session \<open>self\<close>.\<close>

fun gen_next :: "generator \<Rightarrow> CaptureSession \<Rightarrow> (step \<times> generator \<times> CaptureSession) option" where
  "gen_next GenCreated self =
     (if started self then resume (frames_loop self)
      else Some (Raise lifecycle_error, GenFinished, self))"
| "gen_next GenSuspended self = resume (frames_loop self)"
| "gen_next GenFinished self = Some (Raise StopIteration, GenFinished, self)"

text \<open>
  \<open>with session: body\<close>. \<open>__enter__\<close> starts the session; when it raises, neither the
  body nor \<open>__exit__\<close> runs. The body ends with a value or an exception; \<open>__exit__\<close>
  calls \<open>stop\<close> and returns \<open>None\<close>, so the body's exception is raised again.
\<close>

definition enter :: "CaptureSession \<Rightarrow> (py_error + unit) \<times> CaptureSession" where
  "enter self = start self"

definition exit_session :: "CaptureSession \<Rightarrow> (py_error + unit) \<times> CaptureSession" where
  "exit_session self = stop self"

definition with_session ::
  "CaptureSession \<Rightarrow> (CaptureSession \<Rightarrow> (py_error + 'a) \<times> CaptureSession)
    \<Rightarrow> (py_error + 'a) \<times> CaptureSession" where
  "with_session self body =
     (case enter self of
        (Inl e, s1) \<Rightarrow> (Inl e, s1)
      | (Inr u, s1) \<Rightarrow>
          (case body s1 of
             (r, s2) \<Rightarrow>
               (case exit_session s2 of
                  (Inl e, s3) \<Rightarrow> (Inl e, s3)
                | (Inr u, s3) \<Rightarrow> (r, s3))))"

section \<open>Concrete inputs\<close>

definition example_frame :: image where
  "example_frame =
     \<lparr>img_shape = [2, 2, 3], img_pixels = [0, 0, 0, 10, 20, 30, 0, 0, 0, 0, 0, 0],
      img_strokes = []\<rparr>"

definition example_estimator :: PoseEstimator where
  "example_estimator = \<lparr>mp_pose = (\<lambda>rgb. Some [(1 / 2, 1 / 4, 0, 1)])\<rparr>"

definition example_color :: image where
  "example_color = \<lparr>img_shape = [1, 1, 3], img_pixels = [1, 2, 3], img_strokes = []\<rparr>"

definition example_depth :: image where
  "example_depth = \<lparr>img_shape = [1, 1], img_pixels = [700], img_strokes = []\<rparr>"

text \<open>A device whose first frameset has no depth frame, whose second is complete.\<close>

definition example_feed :: "nat \<Rightarrow> delivery" where
  "example_feed n =
     (if n = 0 then Frames \<lparr>color_frame = Some example_color, depth_frame = None\<rparr>
      else if n = 1 then
        Frames \<lparr>color_frame = Some example_color, depth_frame = Some example_depth\<rparr>
      else Timeout)"

definition example_config :: CaptureConfig where
  "example_config =
     \<lparr>color_stream = StreamProfile_default, depth_stream = StreamProfile_default,
      align_to_color = False, playback_file = None\<rparr>"

definition example_session :: CaptureSession where
  "example_session =
     CaptureSession_init example_config
       \<lparr>running = False, connectable = True, feed = example_feed, cursor = 0,
        sdk_calls = []\<rparr>
       id"

definition example_body_ok :: "CaptureSession \<Rightarrow> (py_error + nat) \<times> CaptureSession" where
  "example_body_ok s = (Inr 7, s)"

definition example_body_raises :: "CaptureSession \<Rightarrow> (py_error + nat) \<times> CaptureSession" where
  "example_body_raises s = (Inl ValueError, s)"

section \<open>The overlay renderer\<close>

subsection \<open>Landmark coordinates\<close>

lemma landmark_coords_empty:
  "landmarks pose = [] \<Longrightarrow> landmark_coords pose = Inl IndexError"
  by (simp add: landmark_coords_def as_ndarray_def np_array_def)

lemma landmark_coords_nonempty:
  assumes "landmarks pose \<noteq> []"
  shows "landmark_coords pose =
           Inr (map (\<lambda>lm. (trunc (lm_x lm * of_int (image_width pose)),
                           trunc (lm_y lm * of_int (image_height pose))))
                  (landmarks pose))"
proof -
  let ?rows = "map (\<lambda>lm. [lm_x lm, lm_y lm, lm_z lm, lm_visibility lm]) (landmarks pose)"
  have a: "as_ndarray pose = Array2D ?rows"
    using assms by (simp add: as_ndarray_def np_array_def)
  have c0: "column (Array2D ?rows) 0 = Inr (map lm_x (landmarks pose))"
    by (simp add: list_all_iff o_def)
  have c1: "column (Array2D ?rows) 1 = Inr (map lm_y (landmarks pose))"
    by (simp add: list_all_iff o_def)
  show ?thesis
    unfolding landmark_coords_def Let_def a c0 c1
    by (simp add: column_stack_def times_int_def astype_int_def zip_map_map
        zip_same_conv_map o_def)
qed

subsection \<open>Drawing changes one array of the store\<close>

lemma draw_length: "length (draw a d h) = length h"
  by (simp add: draw_def)

lemma fold_draw:
  "a < length h \<Longrightarrow>
   fold (draw a) ds h = h[a := (h ! a)\<lparr>img_strokes := img_strokes (h ! a) @ ds\<rparr>]"
proof (induction ds arbitrary: h)
  case Nil
  then show ?case by simp
next
  case (Cons d ds)
  have "fold (draw a) (d # ds) h = fold (draw a) ds (draw a d h)" by simp
  also have "\<dots> = (draw a d h)[a := (draw a d h ! a)
                       \<lparr>img_strokes := img_strokes (draw a d h ! a) @ ds\<rparr>]"
    using Cons by (simp add: draw_length)
  also have "\<dots> = h[a := (h ! a)\<lparr>img_strokes := img_strokes (h ! a) @ d # ds\<rparr>]"
    using Cons.prems by (simp add: draw_def)
  finally show ?case .
qed

lemma draw_edges_fold:
  "draw_edges self a coords h =
   fold (draw a)
     (map (\<lambda>(s, e). Line (coords ! s) (coords ! e) (skeleton (colors self)) 2)
        (filter (\<lambda>(s, e). s < length coords \<and> e < length coords) (pairs self))) h"
proof -
  have "fold (\<lambda>(start, end) hh.
             if start \<ge> length coords \<or> end \<ge> length coords then hh
             else cv2_line a (coords ! start) (coords ! end) (skeleton (colors self)) 2 hh)
          ps h
        = fold (draw a)
            (map (\<lambda>(s, e). Line (coords ! s) (coords ! e) (skeleton (colors self)) 2)
               (filter (\<lambda>(s, e). s < length coords \<and> e < length coords) ps)) h" for ps
  proof (induction ps arbitrary: h)
    case Nil
    show ?case by simp
  next
    case (Cons p ps)
    obtain s e where p: "p = (s, e)" by (cases p)
    show ?case
    proof (cases "length coords \<le> s \<or> length coords \<le> e")
      case True
      then have "\<not> (s < length coords \<and> e < length coords)" by auto
      with True show ?thesis by (auto simp: p Cons.IH)
    next
      case False
      then have "s < length coords \<and> e < length coords" by auto
      with False show ?thesis by (auto simp: p Cons.IH cv2_line_def)
    qed
  qed
  then show ?thesis by (simp add: draw_edges_def)
qed

lemma draw_joints_fold:
  "draw_joints self a coords h =
   fold (draw a) (map (\<lambda>(x, y). Circle (x, y) 4 (joints (colors self)) (- 1)) coords) h"
proof -
  have "fold (\<lambda>(x, y) hh. cv2_circle a (x, y) 4 (joints (colors self)) (- 1) hh) cs h
      = fold (draw a) (map (\<lambda>(x, y). Circle (x, y) 4 (joints (colors self)) (- 1)) cs) h"
    for cs
    by (induction cs arbitrary: h) (auto simp: cv2_circle_def)
  then show ?thesis by (simp add: draw_joints_def)
qed

subsection \<open>What \<open>render\<close> returns when the coordinates are computed\<close>

text \<open>
  The annotated array is a new one, after all arrays of the store, which stay as they
  were. It has the shape and the pixel data of the frame, the strokes of the frame, then
  one line for each edge whose two ends are landmarks of the pose, then one circle for
  each landmark.
\<close>

lemma render_Inr:
  assumes "landmark_coords pose = Inr coords" and "frame < length h"
  shows "render self frame pose h =
     Inr (length h,
          h @ [(h ! frame)\<lparr>img_strokes := img_strokes (h ! frame)
             @ map (\<lambda>(s, e). Line (coords ! s) (coords ! e) (skeleton (colors self)) 2)
                 (filter (\<lambda>(s, e). s < length coords \<and> e < length coords) (pairs self))
             @ map (\<lambda>(x, y). Circle (x, y) 4 (joints (colors self)) (- 1)) coords\<rparr>])"
  using assms
  by (simp add: render_def ndarray_copy_def draw_edges_fold draw_joints_fold fold_draw
      nth_append)

lemma render_without_landmarks:
  "landmarks pose = [] \<Longrightarrow> render self frame pose h = Inl IndexError"
  by (simp add: render_def landmark_coords_empty)

lemma render_keeps_input:
  assumes "landmarks pose \<noteq> []" and "frame < length h"
  shows "\<exists>h'. render self frame pose h = Inr (length h, h')
           \<and> length h' = Suc (length h)
           \<and> take (length h) h' = h
           \<and> img_shape (h' ! length h) = img_shape (h ! frame)
           \<and> img_pixels (h' ! length h) = img_pixels (h ! frame)"
  using render_Inr[OF landmark_coords_nonempty[OF assms(1)] assms(2), of self]
  by simp

text \<open>
  Claim C1 (defect in the code). For a pose with fewer landmarks than the edges refer to,
  \<open>render\<close> should complete and leave out the edges it cannot draw, also for a pose
  with no landmark. With no landmark \<open>as_ndarray\<close> returns an array of shape \<open>(0,)\<close>,
  not \<open>(0, 4)\<close> as its docstring says, and \<open>points[:, 0]\<close> raises \<open>IndexError\<close>.
\<close>

theorem render_empty_landmarks_raises:
  "render (OverlayRenderer_init None) 0
     \<lparr>landmarks = [], image_height = 480, image_width = 640\<rparr> [example_frame]
   = Inl IndexError"
  by (simp add: render_def landmark_coords_def as_ndarray_def np_array_def)

text \<open>
  With at least one landmark \<open>render\<close> does complete, whatever the number of landmarks,
  and draws the edges in range only.
\<close>

lemma render_short_landmarks:
  assumes "landmarks pose \<noteq> []" and "frame < length h"
  shows "\<exists>coords h'. landmark_coords pose = Inr coords
           \<and> length coords = length (landmarks pose)
           \<and> render self frame pose h = Inr (length h, h')
           \<and> img_strokes (h' ! length h) =
               img_strokes (h ! frame)
               @ map (\<lambda>(s, e). Line (coords ! s) (coords ! e) (skeleton (colors self)) 2)
                   (filter (\<lambda>(s, e). s < length (landmarks pose) \<and> e < length (landmarks pose))
                      (pairs self))
               @ map (\<lambda>(x, y). Circle (x, y) 4 (joints (colors self)) (- 1)) coords"
  using render_Inr[OF landmark_coords_nonempty[OF assms(1)] assms(2), of self]
    landmark_coords_nonempty[OF assms(1)]
  by simp

text \<open>
  Claim C4 (defect in the code, the one of C1). \<open>render\<close> should return a new
  annotated frame of the size of its input for every pose, without changing the input.
  For a pose with no landmark it returns no frame: it raises \<open>IndexError\<close>. Lemma
  \<open>render_keeps_input\<close> is the claim for the poses that have a landmark.
\<close>

theorem render_returns_no_frame:
  "\<not> (\<exists>annotated h'.
         render (OverlayRenderer_init (Some \<lparr>skeleton = (255, 0, 0), joints = (0, 0, 255)\<rparr>)) 0
           \<lparr>landmarks = [], image_height = 2, image_width = 2\<rparr> [example_frame]
         = Inr (annotated, h'))"
  by (simp add: render_def landmark_coords_def as_ndarray_def np_array_def)

subsection \<open>Rendering a sequence\<close>

text \<open>
  When every frame is in the store and every pose that is present has a landmark, the
  generator ends without an exception after as many items as the shorter input has, and
  a frame whose pose is \<open>None\<close> is yielded as it is: the same reference.
\<close>

lemma render_sequence_length:
  assumes "list_all (\<lambda>a. a < length h) frs"
    and "list_all (\<lambda>p. case p of None \<Rightarrow> True | Some q \<Rightarrow> landmarks q \<noteq> []) poses"
  shows "fst (snd (render_sequence self frs poses h)) = None \<and>
         length (fst (render_sequence self frs poses h)) = min (length frs) (length poses)"
  using assms
proof (induction self frs poses h rule: render_sequence.induct)
  case (1 self frame frs pose poses h)
  show ?case
  proof (cases pose)
    case None
    with 1 show ?thesis by (auto split: prod.splits)
  next
    case (Some p)
    with "1.prems" have ne: "landmarks p \<noteq> []" and fr: "frame < length h" by auto
    obtain h1 where r: "render self frame p h = Inr (length h, h1)"
      and len: "length h1 = Suc (length h)"
      using render_Inr[OF landmark_coords_nonempty[OF ne] fr, of self] by simp
    have "list_all (\<lambda>a. a < length h1) frs"
      using "1.prems"(1) len by (auto simp: list_all_iff)
    moreover have
      "list_all (\<lambda>p. case p of None \<Rightarrow> True | Some q \<Rightarrow> landmarks q \<noteq> []) poses"
      using "1.prems"(2) by simp
    ultimately have "fst (snd (render_sequence self frs poses h1)) = None \<and>
         length (fst (render_sequence self frs poses h1)) = min (length frs) (length poses)"
      using "1.IH"(2)[OF Some r refl] by simp
    with Some r show ?thesis
      by (auto split: prod.splits)
  qed
qed simp_all

lemma render_sequence_passes_through:
  assumes "list_all (\<lambda>a. a < length h) frs"
    and "list_all (\<lambda>p. case p of None \<Rightarrow> True | Some q \<Rightarrow> landmarks q \<noteq> []) poses"
    and "i < min (length frs) (length poses)"
    and "poses ! i = None"
  shows "fst (render_sequence self frs poses h) ! i = frs ! i"
  using assms
proof (induction self frs poses h arbitrary: i rule: render_sequence.induct)
  case (1 self frame frs pose poses h)
  have rest: "list_all (\<lambda>p. case p of None \<Rightarrow> True | Some q \<Rightarrow> landmarks q \<noteq> []) poses"
    using "1.prems"(2) by simp
  show ?case
  proof (cases pose)
    case None
    show ?thesis
    proof (cases i)
      case 0
      with None show ?thesis by (simp split: prod.splits)
    next
      case (Suc j)
      with "1.prems" None have "fst (render_sequence self frs poses h) ! j = frs ! j"
        by (intro "1.IH"(1)) auto
      with None Suc show ?thesis by (auto split: prod.splits)
    qed
  next
    case (Some p)
    with "1.prems" have ne: "landmarks p \<noteq> []" and fr: "frame < length h" by auto
    obtain h1 where r: "render self frame p h = Inr (length h, h1)"
      and len: "length h1 = Suc (length h)"
      using render_Inr[OF landmark_coords_nonempty[OF ne] fr, of self] by simp
    have fr1: "list_all (\<lambda>a. a < length h1) frs"
      using "1.prems"(1) len by (auto simp: list_all_iff)
    obtain j where i: "i = Suc j"
      using "1.prems"(4) Some by (cases i) auto
    with "1.prems" have "j < min (length frs) (length poses)" "poses ! j = None" by auto
    with fr1 rest have "fst (render_sequence self frs poses h1) ! j = frs ! j"
      by (intro "1.IH"(2)[OF Some r refl]) auto
    with Some r i show ?thesis by (auto split: prod.splits)
  qed
qed simp_all

text \<open>
  Claim C5 (defect in the code, the one of C1). \<open>render_sequence\<close> should yield as many
  items as the shorter of its inputs has. With three frames and three poses of which the
  second has no landmark it yields the first frame and ends with \<open>IndexError\<close>: one
  item, not three.
\<close>

theorem render_sequence_stops_short:
  "render_sequence (OverlayRenderer_init None) [0, 1, 2]
     [None, Some \<lparr>landmarks = [], image_height = 2, image_width = 2\<rparr>, None]
     [example_frame, example_frame, example_frame]
   = ([0], Some IndexError, [example_frame, example_frame, example_frame])
   \<and> min (length [0 :: ref, 1, 2])
         (length [None, Some \<lparr>landmarks = [], image_height = 2, image_width = 2\<rparr>, None])
       = 3"
  by (simp add: render_def landmark_coords_def as_ndarray_def np_array_def)

section \<open>The pose estimator\<close>

text \<open>
  Claim C9. When \<open>estimate\<close> returns a pose for a frame, the frame has a shape
  \<open>(height, width, channels)\<close> and the pose records that height and that width. So
  \<open>render\<close>, applied to that frame (at any place of the store) and that pose, scales
  the normalised landmarks by the frame's own width and height: for a pose that has a
  landmark it returns a new array that is the frame with, drawn on it, a line between the
  truncated pixel positions of the two ends of each edge in range, then a circle at the
  truncated pixel position of each landmark.
\<close>

theorem estimate_records_frame_size:
  assumes "estimate self frame = Inr (Some pose)"
  shows "\<exists>height width c.
           img_shape frame = [height, width, c]
           \<and> image_height pose = int height \<and> image_width pose = int width
           \<and> (landmarks pose \<noteq> [] \<longrightarrow>
                landmark_coords pose =
                  Inr (map (\<lambda>lm. (trunc (lm_x lm * real width), trunc (lm_y lm * real height)))
                         (landmarks pose)))
           \<and> (landmarks pose \<noteq> [] \<and> a < length h \<and> h ! a = frame \<longrightarrow>
                render renderer a pose h =
                  Inr (length h,
                       h @ [frame\<lparr>img_strokes := img_strokes frame
                          @ map (\<lambda>(s, e).
                                   Line (trunc (lm_x (landmarks pose ! s) * real width),
                                         trunc (lm_y (landmarks pose ! s) * real height))
                                        (trunc (lm_x (landmarks pose ! e) * real width),
                                         trunc (lm_y (landmarks pose ! e) * real height))
                                        (skeleton (colors renderer)) 2)
                              (filter (\<lambda>(s, e). s < length (landmarks pose)
                                                \<and> e < length (landmarks pose))
                                 (pairs renderer))
                          @ map (\<lambda>lm. Circle (trunc (lm_x lm * real width),
                                                trunc (lm_y lm * real height))
                                         4 (joints (colors renderer)) (- 1))
                              (landmarks pose)\<rparr>]))"
proof -
  from assms obtain height width c lms where
    sh: "img_shape frame = [height, width, c]" and
    p: "pose = \<lparr>landmarks = map (\<lambda>(x, y, z, v). PoseLandmark x y z v) lms,
                 image_height = int height, image_width = int width\<rparr>"
    by (auto simp: estimate_def split: sum.splits option.splits list.splits)
  have hw: "image_height pose = int height" "image_width pose = int width"
    by (simp_all add: p)
  let ?px = "\<lambda>lm. (trunc (lm_x lm * real width), trunc (lm_y lm * real height))"
  let ?coords = "map ?px (landmarks pose)"
  have lc: "landmark_coords pose = Inr ?coords" if "landmarks pose \<noteq> []"
    using landmark_coords_nonempty[OF that] by (simp add: hw)
  have edges: "map (\<lambda>(s, e). Line (?coords ! s) (?coords ! e) (skeleton (colors renderer)) 2)
                 (filter (\<lambda>(s, e). s < length ?coords \<and> e < length ?coords) (pairs renderer))
             = map (\<lambda>(s, e). Line (?px (landmarks pose ! s)) (?px (landmarks pose ! e))
                                 (skeleton (colors renderer)) 2)
                 (filter (\<lambda>(s, e). s < length (landmarks pose) \<and> e < length (landmarks pose))
                    (pairs renderer))"
    by (rule map_cong) (auto simp: split_def)
  have joints: "map (\<lambda>(x, y). Circle (x, y) 4 (joints (colors renderer)) (- 1)) ?coords
             = map (\<lambda>lm. Circle (?px lm) 4 (joints (colors renderer)) (- 1)) (landmarks pose)"
    by simp
  have r: "render renderer a pose h =
             Inr (length h,
                  h @ [frame\<lparr>img_strokes := img_strokes frame
                     @ map (\<lambda>(s, e). Line (?px (landmarks pose ! s)) (?px (landmarks pose ! e))
                                 (skeleton (colors renderer)) 2)
                         (filter (\<lambda>(s, e). s < length (landmarks pose) \<and> e < length (landmarks pose))
                            (pairs renderer))
                     @ map (\<lambda>lm. Circle (?px lm) 4 (joints (colors renderer)) (- 1))
                         (landmarks pose)\<rparr>])"
    if "landmarks pose \<noteq> []" "a < length h" "h ! a = frame"
    using render_Inr[OF lc[OF that(1)] that(2), of renderer] that(3)
    unfolding edges joints by simp
  show ?thesis
    using sh hw lc r by (intro exI[of _ height] exI[of _ width] exI[of _ c]) simp
qed

theorem estimate_records_frame_size_witness:
  "estimate example_estimator example_frame =
     Inr (Some \<lparr>landmarks = [PoseLandmark (1 / 2) (1 / 4) 0 1],
                image_height = 2, image_width = 2\<rparr>)
   \<and> img_shape example_frame = [2, 2, 3]
   \<and> landmark_coords \<lparr>landmarks = [PoseLandmark (1 / 2) (1 / 4) 0 1],
                       image_height = 2, image_width = 2\<rparr>
       = Inr [(1, 0)]
   \<and> render (OverlayRenderer_init None) 0
        \<lparr>landmarks = [PoseLandmark (1 / 2) (1 / 4) 0 1], image_height = 2, image_width = 2\<rparr>
        [example_frame]
       = Inr (1, [example_frame,
                  example_frame\<lparr>img_strokes := [Circle (1, 0) 4 (0, 128, 255) (- 1)]\<rparr>])"
proof -
  let ?pose = "\<lparr>landmarks = [PoseLandmark (1 / 2) (1 / 4) 0 1],
                image_height = 2, image_width = 2\<rparr>"
  have e: "estimate example_estimator example_frame = Inr (Some ?pose)"
    by (simp add: estimate_def example_estimator_def example_frame_def cvtColor_BGR2RGB_def)
  from estimate_records_frame_size
         [OF e, of 0 "[example_frame]" "OverlayRenderer_init None"]
  obtain height width c where
    sh: "img_shape example_frame = [height, width, c]" and
    lc: "landmark_coords ?pose =
           Inr [(trunc (1 / 2 * real width), trunc (1 / 4 * real height))]" and
    r: "render (OverlayRenderer_init None) 0 ?pose [example_frame] =
          Inr (1, [example_frame,
                   example_frame\<lparr>img_strokes := img_strokes example_frame
                     @ map (\<lambda>(s, e).
                              Line (trunc (lm_x (landmarks ?pose ! s) * real width),
                                    trunc (lm_y (landmarks ?pose ! s) * real height))
                                   (trunc (lm_x (landmarks ?pose ! e) * real width),
                                    trunc (lm_y (landmarks ?pose ! e) * real height))
                                   (skeleton (colors (OverlayRenderer_init None))) 2)
                         (filter (\<lambda>(s, e). s < length (landmarks ?pose)
                                           \<and> e < length (landmarks ?pose))
                            (pairs (OverlayRenderer_init None)))
                     @ map (\<lambda>lm. Circle (trunc (lm_x lm * real width),
                                           trunc (lm_y lm * real height))
                                    4 (joints (colors (OverlayRenderer_init None))) (- 1))
                         (landmarks ?pose)\<rparr>])"
    by auto
  from sh have wh: "height = 2" "width = 2" by (simp_all add: example_frame_def)
  have strokes: "img_strokes example_frame = []" by (simp add: example_frame_def)
  have lc': "landmark_coords ?pose = Inr [(1, 0)]"
    using lc by (simp add: wh trunc_def)
  have r': "render (OverlayRenderer_init None) 0 ?pose [example_frame]
       = Inr (1, [example_frame,
                  example_frame\<lparr>img_strokes := [Circle (1, 0) 4 (0, 128, 255) (- 1)]\<rparr>])"
    unfolding r
    by (simp add: wh trunc_def strokes OverlayRenderer_init_def default_pairs_def
        OverlayColors_default_def)
  have s3: "img_shape example_frame = [2, 2, 3]" by (simp add: example_frame_def)
  show ?thesis
    by (intro conjI) (rule e, rule s3, rule lc', rule r')
qed

section \<open>The calibration store\<close>

lemma save_archive:
  "save_calibration data path fs (savez_filename path) =
     Some [(''camera_matrix'', NumericArray (camera_matrix data)),
           (''distortion_coeffs'', NumericArray (distortion_coeffs data)),
           (''extrinsics'', asanyarray (extrinsics data))]"
  by (simp add: save_calibration_def np_savez_def asanyarray_def)

text \<open>
  Saved with extrinsics, the data is read back as it was from the file that \<open>np.savez\<close>
  wrote. Saved without, the archive holds an object array and reading it back fails.
  The file written is not the one named when the name does not end in \<open>.npz\<close>.
\<close>

lemma load_after_save_Some:
  "extrinsics data = Some e \<Longrightarrow>
   load_calibration (savez_filename path) (save_calibration data path fs) = Inr data"
  by (simp add: load_calibration_def np_load_def save_archive npz_getitem_def npz_get_def
      asanyarray_def)

lemma load_after_save_None:
  "load_calibration (savez_filename path)
     (save_calibration (data\<lparr>extrinsics := None\<rparr>) path fs)
   = Inl ValueError"
  by (simp add: load_calibration_def np_load_def save_archive npz_getitem_def npz_get_def
      asanyarray_def)

lemma load_unsuffixed_path:
  "\<not> endswith path ''.npz'' \<Longrightarrow>
   load_calibration path (save_calibration data path fs) = load_calibration path fs"
  by (simp add: load_calibration_def np_load_def save_calibration_def np_savez_def
      savez_filename_def)

lemma roundtrip_unsuffixed_fails:
  "load_calibration ''calib''
     (save_calibration
        \<lparr>camera_matrix = Array2D [[1, 0, 0], [0, 1, 0], [0, 0, 1]],
         distortion_coeffs = Array1D [0, 0, 0, 0, 0],
         extrinsics = Some (Array2D [[1, 0], [0, 1]])\<rparr>
        ''calib'' Map.empty)
   = Inl FileNotFoundError"
  by (simp add: load_calibration_def np_load_def save_calibration_def np_savez_def
      savez_filename_def endswith_def)

text \<open>
  Claim C2 (defect in the code). Saving and loading should give back the camera matrix
  and the distortion coefficients, also when there are no extrinsics. Without extrinsics
  \<open>save_calibration\<close> stores \<open>None\<close> as an object array under the key
  \<open>extrinsics\<close>; \<open>load_calibration\<close> opens the archive without pickle, the key is
  there, so \<open>archive.get\<close> reads it and raises \<open>ValueError\<close>: nothing is returned.
\<close>

theorem roundtrip_without_extrinsics_fails:
  "load_calibration ''calib.npz''
     (save_calibration
        \<lparr>camera_matrix = Array2D [[1, 0, 0], [0, 1, 0], [0, 0, 1]],
         distortion_coeffs = Array1D [0, 0, 0, 0, 0],
         extrinsics = None\<rparr>
        ''calib.npz'' Map.empty)
   = Inl ValueError"
  by (simp add: load_calibration_def np_load_def save_calibration_def np_savez_def
      savez_filename_def endswith_def npz_getitem_def npz_get_def asanyarray_def)

text \<open>
  Claim C10. The archive \<open>save_calibration\<close> writes always has the three keys, in
  this order; under \<open>extrinsics\<close> it holds what \<open>np.asanyarray\<close> makes of the value,
  for \<open>None\<close> the object array of \<open>None\<close>. So reading the key never raises
  \<open>KeyError\<close>, and \<open>archive.get\<close> never returns its default \<open>None\<close>.
\<close>

theorem save_always_writes_extrinsics:
  "\<exists>archive.
     save_calibration data path fs (savez_filename path) = Some archive
     \<and> map fst archive = [''camera_matrix'', ''distortion_coeffs'', ''extrinsics'']
     \<and> map_of archive ''extrinsics'' = Some (asanyarray (extrinsics data))
     \<and> asanyarray None = ObjectArrayNone
     \<and> npz_getitem archive ''extrinsics'' \<noteq> Inl KeyError
     \<and> npz_get archive ''extrinsics'' \<noteq> Inr None"
  by (cases "extrinsics data")
     (simp_all add: save_archive npz_getitem_def npz_get_def asanyarray_def)

theorem save_always_writes_extrinsics_witness:
  "map_option (map fst)
     (save_calibration
        \<lparr>camera_matrix = Array2D [[1, 0, 0], [0, 1, 0], [0, 0, 1]],
         distortion_coeffs = Array1D [0, 0, 0, 0, 0],
         extrinsics = None\<rparr>
        ''calib'' Map.empty ''calib.npz'')
   = Some [''camera_matrix'', ''distortion_coeffs'', ''extrinsics'']"
proof -
  have n: "savez_filename ''calib'' = ''calib.npz''"
    by (simp add: savez_filename_def endswith_def)
  from save_always_writes_extrinsics
         [of "\<lparr>camera_matrix = Array2D [[1, 0, 0], [0, 1, 0], [0, 0, 1]],
               distortion_coeffs = Array1D [0, 0, 0, 0, 0],
               extrinsics = None\<rparr>" "''calib''" Map.empty]
  show ?thesis unfolding n by auto
qed

section \<open>The capture session\<close>

subsection \<open>Starting and stopping\<close>

lemma start_when_started: "started self \<Longrightarrow> start self = (Inr (), self)"
  by (simp add: start_def)

lemma stop_when_stopped: "\<not> started self \<Longrightarrow> stop self = (Inr (), self)"
  by (simp add: stop_def)

lemma start_success_started: "start self = (Inr u, s') \<Longrightarrow> started s'"
  by (auto simp: start_def pipeline_start_def Let_def split: if_splits prod.splits sum.splits)

lemma stop_success_stopped: "stop self = (Inr u, s') \<Longrightarrow> \<not> started s'"
  by (auto simp: stop_def pipeline_stop_def Let_def split: if_splits prod.splits sum.splits)

text \<open>
  The flag of the session and the state of the pipeline agree at construction (on a
  pipeline that is not running), and \<open>start\<close> and \<open>stop\<close> keep them so.
\<close>

lemma start_keeps_invariant:
  "started self = running (pipeline self) \<Longrightarrow>
   started (snd (start self)) = running (pipeline (snd (start self)))"
  by (auto simp: start_def pipeline_start_def Let_def split: prod.splits sum.splits if_splits)

lemma stop_keeps_invariant:
  "started self = running (pipeline self) \<Longrightarrow>
   started (snd (stop self)) = running (pipeline (snd (stop self)))"
  by (auto simp: stop_def pipeline_stop_def Let_def split: prod.splits sum.splits if_splits)

lemma stop_releases:
  "count_list (sdk_calls (pipeline (snd (stop self)))) PipelineStop
     = count_list (sdk_calls (pipeline self)) PipelineStop + (if started self then 1 else 0)"
  by (auto simp: stop_def pipeline_stop_def Let_def split: prod.splits sum.splits if_splits)

lemma stop_consistent:
  "started self = running (pipeline self) \<Longrightarrow>
   fst (stop self) = Inr () \<and> \<not> started (snd (stop self))
   \<and> \<not> running (pipeline (snd (stop self)))"
  by (auto simp: stop_def pipeline_stop_def Let_def split: prod.splits sum.splits if_splits)

lemma example_started:
  "fst (start example_session) = Inr () \<and> started (snd (start example_session))
   \<and> running (pipeline (snd (start example_session)))
   \<and> cursor (pipeline (snd (start example_session))) = 0
   \<and> feed (pipeline (snd (start example_session))) = example_feed
   \<and> align (snd (start example_session)) = None"
  by (simp add: example_session_def CaptureSession_init_def start_def pipeline_start_def
      example_config_def Let_def)

text \<open>
  Claim C7. \<open>start\<close> on a started session and \<open>stop\<close> on a stopped one return at
  once: the session and the pipeline, with the record of the calls made on it, are as
  before. So a second \<open>start\<close> after one that succeeded, and a second \<open>stop\<close>
  after one that succeeded, do nothing.
\<close>

theorem start_stop_idempotent:
  "(started self \<longrightarrow> start self = (Inr (), self))
   \<and> (\<not> started self \<longrightarrow> stop self = (Inr (), self))
   \<and> (fst (start self) = Inr () \<longrightarrow> start (snd (start self)) = (Inr (), snd (start self)))
   \<and> (fst (stop self) = Inr () \<longrightarrow> stop (snd (stop self)) = (Inr (), snd (stop self)))"
proof (intro conjI impI)
  assume "fst (start self) = Inr ()"
  then have "start self = (Inr (), snd (start self))" by (metis prod.collapse)
  from start_success_started[OF this]
  show "start (snd (start self)) = (Inr (), snd (start self))"
    by (rule start_when_started)
next
  assume "fst (stop self) = Inr ()"
  then have "stop self = (Inr (), snd (stop self))" by (metis prod.collapse)
  from stop_success_stopped[OF this]
  show "stop (snd (stop self)) = (Inr (), snd (stop self))"
    by (rule stop_when_stopped)
qed (simp_all add: start_when_started stop_when_stopped)

theorem start_stop_idempotent_witness:
  "started (snd (start example_session))
   \<and> start (snd (start example_session)) = (Inr (), snd (start example_session))
   \<and> \<not> started example_session
   \<and> stop example_session = (Inr (), example_session)
   \<and> fst (start example_session) = Inr ()
   \<and> fst (stop (snd (start example_session))) = Inr ()
   \<and> stop (snd (stop (snd (start example_session))))
       = (Inr (), snd (stop (snd (start example_session))))"
proof -
  have a: "started (snd (start example_session))" and b: "fst (start example_session) = Inr ()"
    by (simp_all add: example_started)
  have c: "\<not> started example_session"
    by (simp add: example_session_def CaptureSession_init_def)
  have d: "fst (stop (snd (start example_session))) = Inr ()"
    using stop_consistent[of "snd (start example_session)"] by (simp add: example_started)
  show ?thesis
    using start_stop_idempotent[of "snd (start example_session)"]
      start_stop_idempotent[of example_session] a b c d
    by simp
qed

text \<open>
  Claim C8. Once \<open>__enter__\<close> has started the session, whatever the body does and
  however it ends (\<open>r\<close> is its value or its exception), the session after the block is
  the one \<open>stop\<close> makes of the session the body left: \<open>stop\<close> runs once. The
  pipeline is stopped once more than before if the session was still started, and not
  at all if the body had stopped it. When flag and pipeline agree, \<open>stop\<close> does not
  raise, the block ends as the body did and the device is released.
\<close>

theorem with_session_stops_once:
  assumes "enter self = (Inr (), s1)" and "body s1 = (r, s2)"
  shows "snd (with_session self body) = snd (stop s2)
     \<and> count_list (sdk_calls (pipeline (snd (with_session self body)))) PipelineStop
         = count_list (sdk_calls (pipeline s2)) PipelineStop + (if started s2 then 1 else 0)
     \<and> (started s2 = running (pipeline s2) \<longrightarrow>
          fst (with_session self body) = r
          \<and> \<not> started (snd (with_session self body))
          \<and> \<not> running (pipeline (snd (with_session self body))))"
proof -
  have w: "with_session self body =
      (case stop s2 of (Inl e, s3) \<Rightarrow> (Inl e, s3) | (Inr u, s3) \<Rightarrow> (r, s3))"
    using assms by (simp add: with_session_def exit_session_def)
  have 1: "snd (with_session self body) = snd (stop s2)"
    unfolding w by (simp split: prod.splits sum.splits)
  have 2: "started s2 = running (pipeline s2) \<Longrightarrow> fst (with_session self body) = r"
    unfolding w using stop_consistent[of s2] by (auto split: prod.splits sum.splits)
  show ?thesis
    unfolding 1 using 2 stop_releases[of s2] stop_consistent[of s2] by simp
qed

theorem with_session_stops_once_witness:
  "enter example_session = (Inr (), snd (start example_session))
   \<and> fst (with_session example_session example_body_ok) = Inr 7
   \<and> fst (with_session example_session example_body_raises) = Inl ValueError
   \<and> sdk_calls (pipeline (snd (with_session example_session example_body_ok)))
       = [PipelineStart (start_config example_config), PipelineStop]
   \<and> sdk_calls (pipeline (snd (with_session example_session example_body_raises)))
       = [PipelineStart (start_config example_config), PipelineStop]
   \<and> \<not> started (snd (with_session example_session example_body_raises))"
proof -
  let ?s1 = "snd (start example_session)"
  have e: "enter example_session = (Inr (), ?s1)"
    using example_started by (simp add: enter_def prod_eq_iff)
  have inv: "started ?s1 = running (pipeline ?s1)" by (simp add: example_started)
  have calls: "sdk_calls (pipeline ?s1) = [PipelineStart (start_config example_config)]"
    by (simp add: example_session_def CaptureSession_init_def start_def pipeline_start_def
      Let_def)
  have st: "sdk_calls (pipeline (snd (stop ?s1)))
              = [PipelineStart (start_config example_config), PipelineStop]"
    using calls example_started by (simp add: stop_def pipeline_stop_def Let_def)
  have ok: "example_body_ok ?s1 = (Inr 7, ?s1)" by (simp add: example_body_ok_def)
  have bad: "example_body_raises ?s1 = (Inl ValueError, ?s1)"
    by (simp add: example_body_raises_def)
  note t_ok = with_session_stops_once
                [of example_session ?s1 example_body_ok "Inr 7" ?s1, OF e ok]
  note t_bad = with_session_stops_once
                 [of example_session ?s1 example_body_raises "Inl ValueError" ?s1, OF e bad]
  have r_ok: "fst (with_session example_session example_body_ok) = Inr 7"
    using t_ok inv by blast
  have r_bad: "fst (with_session example_session example_body_raises) = Inl ValueError"
    and n_bad: "\<not> started (snd (with_session example_session example_body_raises))"
    using t_bad inv by blast+
  have c_ok: "sdk_calls (pipeline (snd (with_session example_session example_body_ok)))
       = [PipelineStart (start_config example_config), PipelineStop]"
    using t_ok st by simp
  have c_bad: "sdk_calls (pipeline (snd (with_session example_session example_body_raises)))
       = [PipelineStart (start_config example_config), PipelineStop]"
    using t_bad st by simp
  show ?thesis
    by (intro conjI) (rule e, rule r_ok, rule r_bad, rule c_ok, rule c_bad, rule n_bad)
qed

subsection \<open>The frame generator\<close>

lemma wait_for_frames_Inr:
  assumes "wait_for_frames p = (Inr fs, p')"
  shows "running p \<and> feed p (cursor p) = Frames fs \<and> cursor p' = Suc (cursor p)
         \<and> feed p' = feed p \<and> running p'"
  using assms
  by (auto simp: wait_for_frames_def Let_def split: if_splits delivery.splits)

lemma aligned_pipeline_update [simp]: "aligned (self\<lparr>pipeline := p\<rparr>) fs = aligned self fs"
  by (simp add: aligned_def)

text \<open>
  When the loop yields, the pair is the colour and the depth frame of a frameset the
  device delivered, after alignment, and every frameset delivered before it since the
  loop was entered lacked a component. The proof is by the induction rule of the loop:
  it says nothing of a loop that never yields.
\<close>

lemma frames_loop_yields_complete:
  assumes "frames_loop self = Some (Yield (color, depth), self')"
  shows "\<exists>k fs. cursor (pipeline self) \<le> k
           \<and> feed (pipeline self) k = Frames fs
           \<and> color_frame (aligned self fs) = Some color
           \<and> depth_frame (aligned self fs) = Some depth
           \<and> (\<forall>j. cursor (pipeline self) \<le> j \<and> j < k \<longrightarrow>
                  (\<exists>fj. feed (pipeline self) j = Frames fj
                      \<and> (color_frame (aligned self fj) = None
                           \<or> depth_frame (aligned self fj) = None)))
           \<and> cursor (pipeline self') = Suc k"
proof -
  define P where "P = (\<lambda>(self :: CaptureSession) (r :: step \<times> CaptureSession).
     \<forall>color depth self'. r = (Yield (color, depth), self') \<longrightarrow>
       (\<exists>k fs. cursor (pipeline self) \<le> k
           \<and> feed (pipeline self) k = Frames fs
           \<and> color_frame (aligned self fs) = Some color
           \<and> depth_frame (aligned self fs) = Some depth
           \<and> (\<forall>j. cursor (pipeline self) \<le> j \<and> j < k \<longrightarrow>
                  (\<exists>fj. feed (pipeline self) j = Frames fj
                      \<and> (color_frame (aligned self fj) = None
                           \<or> depth_frame (aligned self fj) = None)))
           \<and> cursor (pipeline self') = Suc k))"
  have "P self (Yield (color, depth), self')"
  proof (rule frames_loop.raw_induct[where P = P, OF _ assms])
    fix loop :: "CaptureSession \<Rightarrow> (step \<times> CaptureSession) option"
      and s :: CaptureSession and r
    assume IH: "\<And>x y. loop x = Some y \<Longrightarrow> P x y"
    assume body: "(case wait_for_frames (pipeline s) of
        (Inl e, p') \<Rightarrow> Some (Raise e, s\<lparr>pipeline := p'\<rparr>)
      | (Inr fs, p') \<Rightarrow>
          (case color_frame (aligned s fs) of
             None \<Rightarrow> loop (s\<lparr>pipeline := p'\<rparr>)
           | Some color \<Rightarrow>
               (case depth_frame (aligned s fs) of
                  None \<Rightarrow> loop (s\<lparr>pipeline := p'\<rparr>)
                | Some depth \<Rightarrow> Some (Yield (color, depth), s\<lparr>pipeline := p'\<rparr>)))) = Some r"
    obtain w p' where w: "wait_for_frames (pipeline s) = (w, p')"
      by (cases "wait_for_frames (pipeline s)")
    show "P s r"
    proof (cases w)
      case (Inl e)
      with body w show ?thesis by (auto simp: P_def)
    next
      case (Inr fs)
      note wf = wait_for_frames_Inr[OF w[unfolded Inr]]
      let ?s1 = "s\<lparr>pipeline := p'\<rparr>"
      have skip: "P s r"
        if inc: "color_frame (aligned s fs) = None \<or> depth_frame (aligned s fs) = None"
          and rec: "loop ?s1 = Some r"
      proof -
        have P1: "P ?s1 r" by (rule IH[OF rec])
        show ?thesis
          unfolding P_def
        proof (intro allI impI)
          fix c d s' assume r: "r = (Yield (c, d), s')"
          with P1 obtain k fs' where k: "Suc (cursor (pipeline s)) \<le> k"
            "feed (pipeline s) k = Frames fs'"
            "color_frame (aligned s fs') = Some c" "depth_frame (aligned s fs') = Some d"
            "\<forall>j. Suc (cursor (pipeline s)) \<le> j \<and> j < k \<longrightarrow>
                  (\<exists>fj. feed (pipeline s) j = Frames fj
                      \<and> (color_frame (aligned s fj) = None
                           \<or> depth_frame (aligned s fj) = None))"
            "cursor (pipeline s') = Suc k"
            using wf by (auto simp: P_def)
          have "\<exists>fj. feed (pipeline s) j = Frames fj
                      \<and> (color_frame (aligned s fj) = None
                           \<or> depth_frame (aligned s fj) = None)"
            if "cursor (pipeline s) \<le> j \<and> j < k" for j
          proof (cases "j = cursor (pipeline s)")
            case True
            with wf inc show ?thesis by auto
          next
            case False
            with that have "Suc (cursor (pipeline s)) \<le> j \<and> j < k" by auto
            with k(5) show ?thesis by blast
          qed
          with k show "\<exists>k fs. cursor (pipeline s) \<le> k
           \<and> feed (pipeline s) k = Frames fs
           \<and> color_frame (aligned s fs) = Some c
           \<and> depth_frame (aligned s fs) = Some d
           \<and> (\<forall>j. cursor (pipeline s) \<le> j \<and> j < k \<longrightarrow>
                  (\<exists>fj. feed (pipeline s) j = Frames fj
                      \<and> (color_frame (aligned s fj) = None
                           \<or> depth_frame (aligned s fj) = None)))
           \<and> cursor (pipeline s') = Suc k"
            by (intro exI[of _ k] exI[of _ fs']) auto
        qed
      qed
      show ?thesis
      proof (cases "color_frame (aligned s fs)")
        case None
        with body w Inr show ?thesis by (intro skip) auto
      next
        case (Some c)
        note col = Some
        show ?thesis
        proof (cases "depth_frame (aligned s fs)")
          case None
          with body w Inr col show ?thesis by (intro skip) auto
        next
          case (Some d)
          with body w Inr col have r: "r = (Yield (c, d), ?s1)" by auto
          show ?thesis
            unfolding P_def r
            using wf col Some
            by (intro allI impI exI[of _ "cursor (pipeline s)"] exI[of _ fs]) auto
        qed
      qed
    qed
  qed
  then show ?thesis by (simp add: P_def)
qed

text \<open>A frameset that lacks a component is passed over: the loop goes on to the next wait.\<close>

lemma frames_loop_skips:
  assumes "running (pipeline self)"
    and "feed (pipeline self) (cursor (pipeline self)) = Frames fs"
    and "color_frame (aligned self fs) = None \<or> depth_frame (aligned self fs) = None"
  shows "frames_loop self
           = frames_loop (self\<lparr>pipeline := snd (wait_for_frames (pipeline self))\<rparr>)"
proof -
  have w: "wait_for_frames (pipeline self) = (Inr fs, snd (wait_for_frames (pipeline self)))"
    using assms(1,2) by (simp add: wait_for_frames_def Let_def)
  show ?thesis
    using assms(3)
    by (subst frames_loop.simps, subst w) (auto split: option.splits)
qed

lemma resume_Yield:
  "resume r = Some (Yield pair, g', s') \<Longrightarrow> r = Some (Yield pair, s') \<and> g' = GenSuspended"
  by (auto simp: resume_def split: option.splits prod.splits step.splits)

lemma gen_next_Yield:
  assumes "gen_next g self = Some (Yield pair, g', self')"
  shows "frames_loop self = Some (Yield pair, self') \<and> g' = GenSuspended"
  using assms by (cases g) (auto dest: resume_Yield split: if_splits)

lemma example_first_request:
  "map_option fst (gen_next GenCreated (snd (start example_session)))
       = Some (Yield (example_color, example_depth))"
  apply (simp add: example_started)
  apply (simp add: example_session_def CaptureSession_init_def start_def pipeline_start_def
      example_config_def Let_def)
  apply (subst frames_loop.simps)
  apply (simp add: wait_for_frames_def example_feed_def aligned_def Let_def)
  apply (subst frames_loop.simps)
  apply (simp add: wait_for_frames_def example_feed_def aligned_def Let_def resume_def)
  done

text \<open>
  Claim C3, as amended. The call \<open>frames()\<close> only makes the generator. When the session
  is not started at the moment the first item is requested, that request raises the
  lifecycle error, yields nothing and leaves session and device untouched; the generator
  is then finished, and every later request on it raises \<open>StopIteration\<close>, whatever
  the session has become.
\<close>

theorem frames_before_start_raises:
  assumes "\<not> started self"
  shows "gen_next (frames self) self = Some (Raise lifecycle_error, GenFinished, self)
         \<and> gen_next GenFinished s' = Some (Raise StopIteration, GenFinished, s')"
  using assms by (simp add: frames_def)

theorem frames_before_start_raises_witness:
  "\<not> started example_session
   \<and> gen_next (frames example_session) example_session
       = Some (Raise lifecycle_error, GenFinished, example_session)"
  using frames_before_start_raises[of example_session]
  by (simp add: example_session_def CaptureSession_init_def)

text \<open>
  The claim as stated fails: \<open>frames()\<close> called on a session that has not been started
  does not raise, and when the session is started before the first item is requested,
  the generator yields a pair.
\<close>

theorem frames_created_before_start_yields:
  "\<not> started example_session
   \<and> frames example_session = GenCreated
   \<and> fst (start example_session) = Inr ()
   \<and> map_option fst (gen_next (frames example_session) (snd (start example_session)))
       = Some (Yield (example_color, example_depth))"
proof -
  have "\<not> started example_session"
    by (simp add: example_session_def CaptureSession_init_def)
  moreover have "frames example_session = GenCreated" by (simp add: frames_def)
  moreover have "fst (start example_session) = Inr ()" by (simp add: example_started)
  moreover have
    "map_option fst (gen_next (frames example_session) (snd (start example_session)))
       = Some (Yield (example_color, example_depth))"
    unfolding frames_def by (rule example_first_request)
  ultimately show ?thesis by blast
qed

text \<open>
  Claim C6. Whenever a request on the generator yields a pair, the pair is the colour
  frame and the depth frame, both present, of one frameset the device delivered (after
  alignment), and all framesets delivered before it since the request began lacked a
  component. And a request on a started session that meets a frameset lacking a component
  neither yields nor raises for it: it continues as the request that waits for the next
  frameset.
\<close>

theorem frames_yields_only_complete_pairs:
  "(gen_next g self = Some (Yield (color, depth), g', self') \<longrightarrow>
      (\<exists>k fs. cursor (pipeline self) \<le> k
           \<and> feed (pipeline self) k = Frames fs
           \<and> color_frame (aligned self fs) = Some color
           \<and> depth_frame (aligned self fs) = Some depth
           \<and> (\<forall>j. cursor (pipeline self) \<le> j \<and> j < k \<longrightarrow>
                  (\<exists>fj. feed (pipeline self) j = Frames fj
                      \<and> (color_frame (aligned self fj) = None
                           \<or> depth_frame (aligned self fj) = None)))
           \<and> cursor (pipeline self') = Suc k))
   \<and> (started self \<and> g \<noteq> GenFinished \<and> running (pipeline self)
        \<and> feed (pipeline self) (cursor (pipeline self)) = Frames fi
        \<and> (color_frame (aligned self fi) = None \<or> depth_frame (aligned self fi) = None) \<longrightarrow>
      gen_next g self
        = gen_next GenSuspended (self\<lparr>pipeline := snd (wait_for_frames (pipeline self))\<rparr>))"
proof (intro conjI impI)
  assume "gen_next g self = Some (Yield (color, depth), g', self')"
  then have "frames_loop self = Some (Yield (color, depth), self')"
    by (simp add: gen_next_Yield)
  then show "\<exists>k fs. cursor (pipeline self) \<le> k
           \<and> feed (pipeline self) k = Frames fs
           \<and> color_frame (aligned self fs) = Some color
           \<and> depth_frame (aligned self fs) = Some depth
           \<and> (\<forall>j. cursor (pipeline self) \<le> j \<and> j < k \<longrightarrow>
                  (\<exists>fj. feed (pipeline self) j = Frames fj
                      \<and> (color_frame (aligned self fj) = None
                           \<or> depth_frame (aligned self fj) = None)))
           \<and> cursor (pipeline self') = Suc k"
    by (rule frames_loop_yields_complete)
next
  assume a: "started self \<and> g \<noteq> GenFinished \<and> running (pipeline self)
        \<and> feed (pipeline self) (cursor (pipeline self)) = Frames fi
        \<and> (color_frame (aligned self fi) = None \<or> depth_frame (aligned self fi) = None)"
  then have "frames_loop self
               = frames_loop (self\<lparr>pipeline := snd (wait_for_frames (pipeline self))\<rparr>)"
    by (intro frames_loop_skips[of self fi]) auto
  with a show "gen_next g self
        = gen_next GenSuspended (self\<lparr>pipeline := snd (wait_for_frames (pipeline self))\<rparr>)"
    by (cases g) auto
qed

theorem frames_yields_only_complete_pairs_witness:
  "map_option fst (gen_next GenCreated (snd (start example_session)))
       = Some (Yield (example_color, example_depth))
   \<and> map_option (\<lambda>r. cursor (pipeline (snd (snd r))))
         (gen_next GenCreated (snd (start example_session)))
       = Some 2
   \<and> example_feed 0 = Frames \<lparr>color_frame = Some example_color, depth_frame = None\<rparr>
   \<and> example_feed 1
       = Frames \<lparr>color_frame = Some example_color, depth_frame = Some example_depth\<rparr>
   \<and> gen_next GenCreated (snd (start example_session))
       = gen_next GenSuspended
           ((snd (start example_session))
              \<lparr>pipeline := snd (wait_for_frames (pipeline (snd (start example_session))))\<rparr>)"
proof -
  let ?s = "snd (start example_session)"
  obtain g' s' where
    y: "gen_next GenCreated ?s = Some (Yield (example_color, example_depth), g', s')"
    using example_first_request by auto
  from frames_yields_only_complete_pairs
         [of GenCreated ?s example_color example_depth g' s',
          THEN conjunct1, rule_format, OF y]
  obtain k fs where k: "feed (pipeline ?s) k = Frames fs"
    "depth_frame (aligned ?s fs) = Some example_depth" "cursor (pipeline s') = Suc k"
    by blast
  have "k = 1"
    using k(1,2) by (auto simp: example_started example_feed_def aligned_def split: if_splits)
  with k(3) have c: "cursor (pipeline s') = 2" by simp
  have skip: "gen_next GenCreated ?s
                = gen_next GenSuspended (?s\<lparr>pipeline := snd (wait_for_frames (pipeline ?s))\<rparr>)"
    by (rule frames_yields_only_complete_pairs
               [of GenCreated ?s _ _ _ _ "\<lparr>color_frame = Some example_color, depth_frame = None\<rparr>",
                THEN conjunct2, rule_format])
       (simp add: example_started example_feed_def aligned_def)
  have two: "map_option (\<lambda>r. cursor (pipeline (snd (snd r)))) (gen_next GenCreated ?s) = Some 2"
    unfolding y using c by simp
  have f0: "example_feed 0 = Frames \<lparr>color_frame = Some example_color, depth_frame = None\<rparr>"
    by (simp add: example_feed_def)
  have f1: "example_feed 1
              = Frames \<lparr>color_frame = Some example_color, depth_frame = Some example_depth\<rparr>"
    by (simp add: example_feed_def)
  show ?thesis
    by (intro conjI) (rule example_first_request, rule two, rule f0, rule f1, rule skip)
qed

end
